theory Spec2Isabelle
  imports Main "HOL-Library.Char_ord" "HOL-Library.List_Lexorder"
begin

section \<open>Data model\<close>

text \<open>
  A track as \<open>get_all_saved_tracks\<close> yields it and as \<open>transfer_tracks\<close> reads it: the
  dict with the keys \<open>id\<close>, \<open>name\<close>, \<open>artists\<close>, \<open>album\<close>, \<open>image\<close> and \<open>added_at\<close>.
  Strings are byte strings in UTF-8; their order (\<open>List_Lexorder\<close> over \<open>Char_ord\<close>) is
  the lexicographic order on bytes, which on UTF-8 is Python's order on code points.
\<close>

record track =
  track_id :: string
  name :: string
  artists :: string
  album :: string
  image :: "string option"
  added_at :: string

text \<open>
  The value of \<open>headers.get('Retry-After')\<close>: no such header, a text that \<open>int\<close> reads as
  a number, or a text on which \<open>int\<close> raises \<open>ValueError\<close>.
\<close>

datatype retry_after_header = Unspecified | Seconds int | Malformed

text \<open>
  What a call of the client library can raise: \<open>SpotifyException\<close> with its
  \<open>http_status\<close> and the Retry-After header of its \<open>headers\<close>, or an exception of the
  transport (connection refused, timeout, ...) with its text.
\<close>

datatype client_error = SpotifyException int retry_after_header | RequestException string

datatype exn = ClientError client_error | ValueError | OverflowError | OSError | ZeroDivisionError

text \<open>
  The dicts that the two generators yield. \<open>Error e n\<close> and \<open>BatchError e i\<close> stand for
  the dict whose \<open>message\<close> is \<open>str(e)\<close>; \<open>Progress\<close> carries \<open>current_track\<close> in ordered
  mode only.
\<close>

datatype event =
    RateLimit int
  | Total int
  | Track track
  | Fetched int int
  | Progress nat nat int "string option"
  | Error exn string
  | BatchError exn nat
  | Complete nat nat

datatype duration = Secs int | Millis nat

text \<open>
  What a generator does, in order: the dicts it yields, the calls it sends to the API and
  the calls of \<open>time.sleep\<close>. \<open>Put i\<close> is \<open>requests.put\<close> on \<open>/v1/me/tracks\<close> with
  \<open>{"ids": [i]}\<close>, \<open>BulkAdd is\<close> is \<open>current_user_saved_tracks_add(tracks=is)\<close>,
  \<open>Fetch l off\<close> is \<open>current_user_saved_tracks(limit=l, offset=off)\<close>.
\<close>

datatype action =
    Yield event
  | Put string
  | BulkAdd "string list"
  | Fetch nat nat
  | Sleep duration

section \<open>Python arithmetic: the percent expression\<close>

text \<open>
  \<open>int((transferred / total) * 100)\<close> divides two ints into a float, multiplies the
  float by 100 and truncates. A non-negative binary64 number is the pair \<open>(m, e)\<close>, that is
  \<open>m * 2 ^ e\<close>; every result is rounded to 53 significant bits, ties to even. The
  exponent is not bounded: quotients of list lengths stay far from the subnormal and the
  overflow range.
\<close>

type_synonym float = "int \<times> int"

function normalize :: "int \<Rightarrow> int \<Rightarrow> int \<Rightarrow> int \<times> int \<times> int" where
  "normalize n d e =
     (if n \<le> 0 \<or> d \<le> 0 then (n, d, e)
      else if n < d * 2 ^ 52 then normalize (2 * n) d (e - 1)
      else if d * 2 ^ 53 \<le> n then normalize n (2 * d) (e + 1)
      else (n, d, e))"
  by pat_completeness auto
termination
  by (relation "measure (\<lambda>(n, d, e). nat (d * 2 ^ 52 - n) + nat (n - d * 2 ^ 53 + 1))") auto

declare normalize.simps [simp del]

definition round_half_even :: "int \<Rightarrow> int \<Rightarrow> int" where
  "round_half_even n d =
     (let q = n div d; r = n mod d
      in if 2 * r < d then q
         else if d < 2 * r then q + 1
         else if even q then q else q + 1)"

definition float_of_quotient :: "int \<Rightarrow> int \<Rightarrow> int \<Rightarrow> float" where
  "float_of_quotient n d e =
     (case normalize n d e of (n', d', e') \<Rightarrow> (round_half_even n' d', e'))"

text \<open>\<open>a / b\<close> on two non-negative ints, \<open>x * k\<close> on a float and a non-negative int, \<open>int(x)\<close>.\<close>

definition py_truediv :: "nat \<Rightarrow> nat \<Rightarrow> exn + float" where
  "py_truediv a b =
     (if b = 0 then Inl ZeroDivisionError else Inr (float_of_quotient (int a) (int b) 0))"

definition float_mul_int :: "float \<Rightarrow> nat \<Rightarrow> float" where
  "float_mul_int x k = (case x of (m, e) \<Rightarrow> float_of_quotient (m * int k) 1 e)"

definition py_int :: "float \<Rightarrow> int" where
  "py_int x = (case x of (m, e) \<Rightarrow>
     if 0 \<le> e then m * 2 ^ nat e else m div 2 ^ nat (- e))"

definition percent :: "nat \<Rightarrow> nat \<Rightarrow> exn + int" where
  "percent transferred tot =
     (case py_truediv transferred tot of
        Inl e \<Rightarrow> Inl e
      | Inr q \<Rightarrow> Inr (py_int (float_mul_int q 100)))"

section \<open>The destination client\<close>

text \<open>
  \<open>requests.put\<close> either raises or returns a response, of which the code reads
  \<open>status_code\<close> and the Retry-After header. The bulk call of the client library either
  raises or returns. The destination answers the n-th call of a run (counted from 0) with
  \<open>put_api n\<close>, respectively \<open>add_api n\<close>: any behaviour of the server over one run is
  such a function.
\<close>

datatype put_outcome = PutRaises string | PutResponse int retry_after_header

datatype add_outcome = AddRaises client_error | AddReturns

record dest_client =
  put_api :: "nat \<Rightarrow> put_outcome"
  add_api :: "nat \<Rightarrow> add_outcome"

section \<open>transfer_tracks\<close>

text \<open>
  \<open>time.sleep(secs)\<close> on an int. It raises \<open>ValueError\<close> on a negative length and
  \<open>OverflowError\<close> when the length in nanoseconds does not fit 64 bits, that is above
  9223372036 seconds. Below that the platform decides: the call fails with \<open>OSError\<close> when
  the end of the sleep lies beyond what the platform's clock can hold. That limit is not in
  the source and depends on the platform and on its clock; it is the parameter
  \<open>sleep_limit\<close>, the longest sleep that the platform takes, taken as the same for every
  sleep of a run. The result is the exception raised, or \<open>None\<close> when the call sleeps and
  returns. The sleeps of fixed length (0.15, 0.3 and 0.5 seconds) are taken by every
  platform.
\<close>

definition sleep :: "int \<Rightarrow> int \<Rightarrow> exn option" where
  "sleep sleep_limit secs =
     (if secs < 0 then Some ValueError
      else if 9223372036 < secs then Some OverflowError
      else if sleep_limit < secs then Some OSError
      else None)"

definition retry_after_of :: "retry_after_header \<Rightarrow> exn + int" where
  "retry_after_of h =
     (case h of Unspecified \<Rightarrow> Inr 30 | Seconds n \<Rightarrow> Inr n | Malformed \<Rightarrow> Inl ValueError)"

text \<open>
  Lines 90 to 111: the first call and, on status 429, the event, the sleep and the
  second call. The result is what was done, the number of calls sent so far, and the
  exception that left the block, if any. The response of the second call is not read.
\<close>

definition put_track :: "int \<Rightarrow> (nat \<Rightarrow> put_outcome) \<Rightarrow> nat \<Rightarrow> track \<Rightarrow> action list \<times> nat \<times> exn option" where
  "put_track sleep_limit put c t =
     (case put c of
        PutRaises m \<Rightarrow> ([Put (track_id t)], c + 1, Some (ClientError (RequestException m)))
      | PutResponse status h \<Rightarrow>
          if status = 429 then
            (case retry_after_of h of
               Inl e \<Rightarrow> ([Put (track_id t)], c + 1, Some e)
             | Inr retry_after \<Rightarrow>
                 (case sleep sleep_limit retry_after of
                    Some e \<Rightarrow>
                      ([Put (track_id t), Yield (RateLimit retry_after)], c + 1, Some e)
                  | None \<Rightarrow>
                      (case put (c + 1) of
                         PutRaises m \<Rightarrow>
                           ([Put (track_id t), Yield (RateLimit retry_after),
                             Sleep (Secs retry_after), Put (track_id t)], c + 2,
                            Some (ClientError (RequestException m)))
                       | PutResponse status' h' \<Rightarrow>
                           ([Put (track_id t), Yield (RateLimit retry_after),
                             Sleep (Secs retry_after), Put (track_id t)], c + 2, None))))
          else ([Put (track_id t)], c + 1, None))"

text \<open>Lines 116 to 123: the progress dict, every tenth count and at the last one.\<close>

definition report :: "nat \<Rightarrow> nat \<Rightarrow> track \<Rightarrow> exn + action list" where
  "report transferred tot t =
     (if transferred mod 10 = 0 \<or> transferred = tot then
        (case percent transferred tot of
           Inl e \<Rightarrow> Inl e
         | Inr p \<Rightarrow> Inr [Yield (Progress transferred tot p (Some (name t)))])
      else Inr [])"

text \<open>
  The loop of lines 88 to 130 over the sorted list, with the number of calls sent and
  the counter \<open>transferred\<close>; it returns what was done and the final counter.
\<close>

fun ordered_loop :: "int \<Rightarrow> (nat \<Rightarrow> put_outcome) \<Rightarrow> nat \<Rightarrow> nat \<Rightarrow> nat \<Rightarrow> track list \<Rightarrow> action list \<times> nat" where
  "ordered_loop sleep_limit put tot c transferred [] = ([], transferred)"
| "ordered_loop sleep_limit put tot c transferred (t # ts) =
     (case put_track sleep_limit put c t of (acts, c', raised) \<Rightarrow>
        (case raised of
           Some e \<Rightarrow>
             (case ordered_loop sleep_limit put tot c' transferred ts of (rest, n) \<Rightarrow>
                (acts @ [Yield (Error e (name t)), Sleep (Millis 150)] @ rest, n))
         | None \<Rightarrow>
             (case report (transferred + 1) tot t of
                Inl e \<Rightarrow>
                  (case ordered_loop sleep_limit put tot c' (transferred + 1) ts of (rest, n) \<Rightarrow>
                     (acts @ [Yield (Error e (name t)), Sleep (Millis 150)] @ rest, n))
              | Inr evs \<Rightarrow>
                  (case ordered_loop sleep_limit put tot c' (transferred + 1) ts of (rest, n) \<Rightarrow>
                     (acts @ evs @ [Sleep (Millis 150)] @ rest, n)))))"

text \<open>\<open>range(0, total, batch_size)\<close> and the slice \<open>tracks[i:i + batch_size]\<close>.\<close>

definition py_range :: "nat \<Rightarrow> nat \<Rightarrow> nat list" where
  "py_range tot step = filter (\<lambda>i. i mod step = 0) [0..<tot]"

definition slice :: "'a list \<Rightarrow> nat \<Rightarrow> nat \<Rightarrow> 'a list" where
  "slice xs i j = take (j - i) (drop i xs)"

text \<open>The loop of lines 135 to 149 over the batch offsets.\<close>

fun batch_loop :: "(nat \<Rightarrow> add_outcome) \<Rightarrow> track list \<Rightarrow> nat \<Rightarrow> nat \<Rightarrow> nat \<Rightarrow> nat list \<Rightarrow> action list \<times> nat" where
  "batch_loop add tracks tot c transferred [] = ([], transferred)"
| "batch_loop add tracks tot c transferred (i # is) =
     (let batch = slice tracks i (i + 50); track_ids = map track_id batch
      in case add c of
           AddRaises e \<Rightarrow>
             (case batch_loop add tracks tot (c + 1) transferred is of (rest, n) \<Rightarrow>
                ([BulkAdd track_ids, Yield (BatchError (ClientError e) i), Sleep (Millis 500)] @ rest, n))
         | AddReturns \<Rightarrow>
             (case percent (transferred + length batch) tot of
                Inl e \<Rightarrow>
                  (case batch_loop add tracks tot (c + 1) (transferred + length batch) is of (rest, n) \<Rightarrow>
                     ([BulkAdd track_ids, Yield (BatchError e i), Sleep (Millis 500)] @ rest, n))
              | Inr p \<Rightarrow>
                  (case batch_loop add tracks tot (c + 1) (transferred + length batch) is of (rest, n) \<Rightarrow>
                     ([BulkAdd track_ids,
                       Yield (Progress (transferred + length batch) tot p None),
                       Sleep (Millis 500)] @ rest, n))))"

definition transfer_tracks :: "int \<Rightarrow> dest_client \<Rightarrow> track list \<Rightarrow> bool \<Rightarrow> action list" where
  "transfer_tracks sleep_limit sp_client tracks preserve_order =
     (let tot = length tracks
      in if preserve_order then
           (let tracks_sorted = sort_key added_at tracks
            in case ordered_loop sleep_limit (put_api sp_client) tot 0 0 tracks_sorted of
                 (acts, transferred) \<Rightarrow> acts @ [Yield (Complete transferred tot)])
         else
           (case batch_loop (add_api sp_client) tracks tot 0 0 (py_range tot 50) of
              (acts, transferred) \<Rightarrow> acts @ [Yield (Complete transferred tot)]))"

section \<open>The source client\<close>

text \<open>
  What \<open>get_all_saved_tracks\<close> reads of a page of \<open>current_user_saved_tracks\<close>: its
  \<open>total\<close> and its \<open>items\<close>; of an item, \<open>added_at\<close> and \<open>track\<close>, which may be
  \<open>None\<close>; of a track, \<open>id\<close>, \<open>name\<close>, the names of its \<open>artists\<close>, the name of its
  \<open>album\<close> and the urls of the album's \<open>images\<close>.
\<close>

record api_track =
  api_id :: string
  api_name :: string
  api_artists :: "string list"
  api_album :: string
  api_images :: "string list"

record saved_item =
  item_track :: "api_track option"
  item_added_at :: string

record page =
  page_total :: int
  page_items :: "saved_item list"

text \<open>
  A call of \<open>current_user_saved_tracks\<close> raises or returns a page. The source is the list
  of its answers to the successive calls of one run. The loop is \<open>while True\<close>: a run
  that has read all the answers given and has neither returned nor raised is \<open>Running\<close>,
  its last call unanswered.
\<close>

datatype fetch_outcome = FetchRaises client_error | FetchReturns page

datatype ending = Returned | Raised exn | Running

section \<open>get_all_saved_tracks\<close>

definition limit :: nat where
  "limit = 50"

text \<open>\<open>', '.join(...)\<close>.\<close>

fun str_join :: "string \<Rightarrow> string list \<Rightarrow> string" where
  "str_join sep [] = []"
| "str_join sep [x] = x"
| "str_join sep (x # y # ys) = x @ sep @ str_join sep (y # ys)"

text \<open>Lines 46 to 54: the dict of one item whose track is \<open>tr\<close>.\<close>

definition track_dict :: "saved_item \<Rightarrow> api_track \<Rightarrow> track" where
  "track_dict item tr =
     \<lparr>track_id = api_id tr,
      name = api_name tr,
      artists = str_join '', '' (api_artists tr),
      album = api_album tr,
      image = (case api_images tr of [] \<Rightarrow> None | url # urls \<Rightarrow> Some url),
      added_at = item_added_at item\<rparr>"

text \<open>The loop of lines 42 to 54 over the items of a page.\<close>

fun yield_tracks :: "saved_item list \<Rightarrow> action list" where
  "yield_tracks [] = []"
| "yield_tracks (item # items) =
     (case item_track item of
        None \<Rightarrow> yield_tracks items
      | Some tr \<Rightarrow> Yield (Track (track_dict item tr)) # yield_tracks items)"

text \<open>
  The loop of lines 23 to 60, with \<open>offset\<close> and \<open>total\<close>, over the answers of the
  source. An exception raised inside the handler (by \<open>int\<close> or by \<open>time.sleep\<close>) leaves
  the generator, as does every exception that the handler does not take.
\<close>

fun fetch_loop :: "int \<Rightarrow> fetch_outcome list \<Rightarrow> nat \<Rightarrow> int option \<Rightarrow> action list \<times> ending" where
  "fetch_loop sleep_limit [] offset tot = ([Fetch limit offset], Running)"
| "fetch_loop sleep_limit (FetchRaises e # answers) offset tot =
     (case e of
        SpotifyException http_status h \<Rightarrow>
          if http_status = 429 then
            (case retry_after_of h of
               Inl e' \<Rightarrow> ([Fetch limit offset], Raised e')
             | Inr retry_after \<Rightarrow>
                 (case sleep sleep_limit retry_after of
                    Some e' \<Rightarrow>
                      ([Fetch limit offset, Yield (RateLimit retry_after)], Raised e')
                  | None \<Rightarrow>
                      (case fetch_loop sleep_limit answers offset tot of (rest, ending) \<Rightarrow>
                         ([Fetch limit offset, Yield (RateLimit retry_after),
                           Sleep (Secs retry_after)] @ rest, ending))))
          else ([Fetch limit offset], Raised (ClientError e))
      | RequestException m \<Rightarrow> ([Fetch limit offset], Raised (ClientError e)))"
| "fetch_loop sleep_limit (FetchReturns results # answers) offset tot =
     (let first = (case tot of None \<Rightarrow> [Yield (Total (page_total results))] | Some n \<Rightarrow> []);
          tot' = (case tot of None \<Rightarrow> page_total results | Some n \<Rightarrow> n);
          items = page_items results
      in if items = [] then ([Fetch limit offset] @ first, Returned)
         else
           (case fetch_loop sleep_limit answers (offset + limit) (Some tot') of (rest, ending) \<Rightarrow>
              ([Fetch limit offset] @ first @ yield_tracks items @
               [Yield (Fetched (min (int (offset + limit)) tot') tot'), Sleep (Millis 300)] @ rest,
               ending)))"

definition get_all_saved_tracks :: "int \<Rightarrow> fetch_outcome list \<Rightarrow> action list \<times> ending" where
  "get_all_saved_tracks sleep_limit sp_client = fetch_loop sleep_limit sp_client 0 None"

section \<open>transfer_tracks on a store of list objects\<close>

text \<open>
  The caller's list is an object that \<open>transfer_tracks\<close> could change in place. Here the
  list objects live in a store, a list of lists addressed by position; \<open>alloc\<close> adds a new
  object at the end. \<open>sorted(tracks, key=...)\<close> and the slice \<open>tracks[i:i + batch_size]\<close>
  build new lists; the function has no statement that assigns to \<open>tracks\<close>, to one of its
  items or to a key of a track. The items of the new lists are the same dicts as those of
  \<open>tracks\<close>; they are values here, since no dict is written.
\<close>

type_synonym heap = "track list list"

definition alloc :: "heap \<Rightarrow> track list \<Rightarrow> heap \<times> nat" where
  "alloc h xs = (h @ [xs], length h)"

definition py_sorted :: "heap \<Rightarrow> nat \<Rightarrow> heap \<times> nat" where
  "py_sorted h a = alloc h (sort_key added_at (h ! a))"

definition py_slice :: "heap \<Rightarrow> nat \<Rightarrow> nat \<Rightarrow> nat \<Rightarrow> heap \<times> nat" where
  "py_slice h a i j = alloc h (slice (h ! a) i j)"

fun batch_loop_heap :: "(nat \<Rightarrow> add_outcome) \<Rightarrow> heap \<Rightarrow> nat \<Rightarrow> nat \<Rightarrow> nat \<Rightarrow> nat \<Rightarrow> nat list \<Rightarrow> (action list \<times> nat) \<times> heap" where
  "batch_loop_heap add h tracks tot c transferred [] = (([], transferred), h)"
| "batch_loop_heap add h tracks tot c transferred (i # is) =
     (case py_slice h tracks i (i + 50) of (h', batch) \<Rightarrow>
        (let track_ids = map track_id (h' ! batch)
         in case add c of
              AddRaises e \<Rightarrow>
                (case batch_loop_heap add h' tracks tot (c + 1) transferred is of ((rest, n), h'') \<Rightarrow>
                   (([BulkAdd track_ids, Yield (BatchError (ClientError e) i), Sleep (Millis 500)] @ rest, n), h''))
            | AddReturns \<Rightarrow>
                (case percent (transferred + length (h' ! batch)) tot of
                   Inl e \<Rightarrow>
                     (case batch_loop_heap add h' tracks tot (c + 1) (transferred + length (h' ! batch)) is of
                        ((rest, n), h'') \<Rightarrow>
                          (([BulkAdd track_ids, Yield (BatchError e i), Sleep (Millis 500)] @ rest, n), h''))
                 | Inr p \<Rightarrow>
                     (case batch_loop_heap add h' tracks tot (c + 1) (transferred + length (h' ! batch)) is of
                        ((rest, n), h'') \<Rightarrow>
                          (([BulkAdd track_ids,
                             Yield (Progress (transferred + length (h' ! batch)) tot p None),
                             Sleep (Millis 500)] @ rest, n), h'')))))"

definition transfer_tracks_heap :: "int \<Rightarrow> dest_client \<Rightarrow> heap \<Rightarrow> nat \<Rightarrow> bool \<Rightarrow> action list \<times> heap" where
  "transfer_tracks_heap sleep_limit sp_client h tracks preserve_order =
     (let tot = length (h ! tracks)
      in if preserve_order then
           (case py_sorted h tracks of (h', tracks_sorted) \<Rightarrow>
              (case ordered_loop sleep_limit (put_api sp_client) tot 0 0 (h' ! tracks_sorted) of
                 (acts, transferred) \<Rightarrow> (acts @ [Yield (Complete transferred tot)], h')))
         else
           (case batch_loop_heap (add_api sp_client) h tracks tot 0 0 (py_range tot 50) of
              ((acts, transferred), h') \<Rightarrow> (acts @ [Yield (Complete transferred tot)], h')))"

section \<open>Observations on a run\<close>

text \<open>
  The ids of the single-item calls of a run and the dicts it yields, in order;
  \<open>calls_of ts ks\<close> is the call sequence that sends the id of the i-th track \<open>ks ! i\<close> times.
\<close>

fun puts :: "action list \<Rightarrow> string list" where
  "puts [] = []"
| "puts (Put i # as) = i # puts as"
| "puts (a # as) = puts as"

fun events :: "action list \<Rightarrow> event list" where
  "events [] = []"
| "events (Yield e # as) = e # events as"
| "events (a # as) = events as"

definition calls_of :: "track list \<Rightarrow> nat list \<Rightarrow> string list" where
  "calls_of ts ks = concat (map (\<lambda>(t, k). replicate k (track_id t)) (zip ts ks))"

text \<open>
  A progress dict is \<open>counted\<close> when both of its counts are at least 1; a
  \<open>division_error\<close> is an error dict whose exception is \<open>ZeroDivisionError\<close>.
\<close>

definition counted :: "action \<Rightarrow> bool" where
  "counted a = (case a of Yield (Progress n tot p cur) \<Rightarrow> 1 \<le> n \<and> 1 \<le> tot | _ \<Rightarrow> True)"

definition division_error :: "action \<Rightarrow> bool" where
  "division_error a =
     (case a of Yield (Error e nm) \<Rightarrow> e = ZeroDivisionError
              | Yield (BatchError e i) \<Rightarrow> e = ZeroDivisionError
              | _ \<Rightarrow> False)"

text \<open>The id lists of the bulk calls of a run, in order.\<close>

fun bulk_adds :: "action list \<Rightarrow> string list list" where
  "bulk_adds [] = []"
| "bulk_adds (BulkAdd ids # as) = ids # bulk_adds as"
| "bulk_adds (a # as) = bulk_adds as"

text \<open>The number that the percent expression gives where it does not raise.\<close>

definition percent_of :: "nat \<Rightarrow> nat \<Rightarrow> int" where
  "percent_of transferred tot = (case percent transferred tot of Inl e \<Rightarrow> 0 | Inr p \<Rightarrow> p)"

text \<open>
  A progress dict is \<open>periodic\<close> when its count is a multiple of 10 or the total;
  \<open>is_error\<close> holds of the error dicts of ordered mode.
\<close>

definition periodic :: "action \<Rightarrow> bool" where
  "periodic a =
     (case a of Yield (Progress n tot p cur) \<Rightarrow> n mod 10 = 0 \<or> n = tot | _ \<Rightarrow> True)"

definition is_error :: "action \<Rightarrow> bool" where
  "is_error a = (case a of Yield (Error e nm) \<Rightarrow> True | _ \<Rightarrow> False)"

text \<open>
  The calls of a run of \<open>get_all_saved_tracks\<close> as pairs of limit and offset, and its
  progress dicts as pairs of \<open>fetched\<close> and \<open>total\<close>; the totals and the track dicts it
  yields; the pages that a run receives from the answers of the source; the track dicts of
  the items of a page whose track is not \<open>None\<close>.
\<close>

fun fetches :: "action list \<Rightarrow> (nat \<times> nat) list" where
  "fetches [] = []"
| "fetches (Fetch l off # as) = (l, off) # fetches as"
| "fetches (a # as) = fetches as"

fun fetched :: "action list \<Rightarrow> (int \<times> int) list" where
  "fetched [] = []"
| "fetched (Yield (Fetched n t) # as) = (n, t) # fetched as"
| "fetched (a # as) = fetched as"

fun totals :: "action list \<Rightarrow> int list" where
  "totals [] = []"
| "totals (Yield (Total n) # as) = n # totals as"
| "totals (a # as) = totals as"

fun yielded_tracks :: "action list \<Rightarrow> track list" where
  "yielded_tracks [] = []"
| "yielded_tracks (Yield (Track t) # as) = t # yielded_tracks as"
| "yielded_tracks (a # as) = yielded_tracks as"




section \<open>Concrete inputs\<close>

text \<open>
  A track and a destination that gives the listed answers to its first calls and status
  200 afterwards; saved items with and without a track, and three pages of a source.
\<close>

definition song :: "string \<Rightarrow> string \<Rightarrow> track" where
  "song i a = \<lparr>track_id = i, name = i, artists = ''Artist'', album = ''Album'', image = None, added_at = a\<rparr>"

definition respond :: "put_outcome list \<Rightarrow> dest_client" where
  "respond rs = \<lparr>put_api = (\<lambda>n. if n < length rs then rs ! n else PutResponse 200 Unspecified),
                 add_api = (\<lambda>n. AddReturns)\<rparr>"

definition liked :: "string \<Rightarrow> string \<Rightarrow> saved_item" where
  "liked i a =
     \<lparr>item_track = Some \<lparr>api_id = i, api_name = i, api_artists = [''Ann'', ''Bo''],
        api_album = ''Album'', api_images = [''large.jpg'', ''small.jpg'']\<rparr>,
      item_added_at = a\<rparr>"

definition unavailable :: "string \<Rightarrow> saved_item" where
  "unavailable a = \<lparr>item_track = None, item_added_at = a\<rparr>"

definition first_page :: page where
  "first_page = \<lparr>page_total = 3, page_items = [liked ''t3'' ''2024-01-03T00:00:00Z'', unavailable ''2024-01-02T12:00:00Z'']\<rparr>"

definition second_page :: page where
  "second_page = \<lparr>page_total = 7, page_items = [liked ''t1'' ''2024-01-01T00:00:00Z'']\<rparr>"

definition empty_page :: page where
  "empty_page = \<lparr>page_total = 7, page_items = []\<rparr>"

text \<open>A snapshot of four tracks, one of them twice, newest first but for the last.\<close>

definition snapshot :: "track list" where
  "snapshot = [song ''c'' ''2024-01-03T10:00:00Z'', song ''a'' ''2024-01-01T10:00:00Z'',
               song ''b'' ''2024-01-02T10:00:00Z'', song ''a'' ''2024-01-01T10:00:00Z'']"

text \<open>A library of \<open>n\<close> tracks, all added at the same time, named by their position.\<close>

function decimal :: "nat \<Rightarrow> string" where
  "decimal n =
     (if n < 10 then [char_of (48 + n)] else decimal (n div 10) @ [char_of (48 + n mod 10)])"
  by pat_completeness auto
termination
  by (relation "measure id") auto

declare decimal.simps [simp del]

definition library :: "nat \<Rightarrow> track list" where
  "library n = map (\<lambda>i. song (decimal i) ''2024-01-01T10:00:00Z'') [0..<n]"

text \<open>A platform whose clock has run for some hours: the longest sleep it takes.\<close>

definition linux_limit :: int where
  "linux_limit = 9223356875"

section \<open>Properties of transfer_tracks\<close>

lemma transfer_tracks_ordered:
  "transfer_tracks lim sp_client tracks True =
     fst (ordered_loop lim (put_api sp_client) (length tracks) 0 0 (sort_key added_at tracks)) @
     [Yield (Complete
        (snd (ordered_loop lim (put_api sp_client) (length tracks) 0 0 (sort_key added_at tracks)))
        (length tracks))]"
  by (simp add: transfer_tracks_def Let_def split_beta)

lemma transfer_tracks_batch:
  "transfer_tracks lim sp_client tracks False =
     fst (batch_loop (add_api sp_client) tracks (length tracks) 0 0 (py_range (length tracks) 50)) @
     [Yield (Complete
        (snd (batch_loop (add_api sp_client) tracks (length tracks) 0 0
               (py_range (length tracks) 50)))
        (length tracks))]"
  by (simp add: transfer_tracks_def Let_def split_beta)

lemma puts_append [simp]: "puts (xs @ ys) = puts xs @ puts ys"
  by (induction xs rule: puts.induct) simp_all

lemma events_append [simp]: "events (xs @ ys) = events xs @ events ys"
  by (induction xs rule: events.induct) simp_all

lemma puts_put_track:
  "\<exists>k. (k = 1 \<or> k = 2) \<and> puts (fst (put_track lim put c t)) = replicate k (track_id t)"
proof -
  have "puts (fst (put_track lim put c t)) = replicate 1 (track_id t) \<or>
        puts (fst (put_track lim put c t)) = replicate 2 (track_id t)"
    by (simp add: put_track_def numeral_2_eq_2 split: put_outcome.split sum.split option.split)
  then show ?thesis by blast
qed

lemma ordered_loop_Cons:
  "put_track lim put c t = (acts, c', raised) \<Longrightarrow>
   \<exists>mid. fst (ordered_loop lim put tot c n (t # ts)) =
     acts @ mid @ [Sleep (Millis 150)] @
       fst (ordered_loop lim put tot c' (case raised of Some e \<Rightarrow> n | None \<Rightarrow> n + 1) ts) \<and>
     puts mid = []"
  by (simp add: report_def split: option.split sum.split prod.split)

lemma puts_ordered_loop:
  "\<exists>ks. length ks = length ts \<and> list_all (\<lambda>k. k = 1 \<or> k = 2) ks \<and>
        puts (fst (ordered_loop lim put tot c n ts)) = calls_of ts ks"
proof (induction ts arbitrary: c n)
  case Nil
  show ?case by (simp add: calls_of_def)
next
  case (Cons t ts)
  obtain acts c' raised where p: "put_track lim put c t = (acts, c', raised)"
    by (cases "put_track lim put c t") auto
  from puts_put_track [of lim put c t] p obtain k
    where k: "k = 1 \<or> k = 2" "puts acts = replicate k (track_id t)"
    by auto
  define n' where "n' = (case raised of Some e \<Rightarrow> n | None \<Rightarrow> n + 1)"
  from Cons.IH [of c' n'] obtain ks
    where ks: "length ks = length ts" "list_all (\<lambda>k. k = 1 \<or> k = 2) ks"
      "puts (fst (ordered_loop lim put tot c' n' ts)) = calls_of ts ks"
    by blast
  from ordered_loop_Cons [OF p, of tot n ts]
  have "puts (fst (ordered_loop lim put tot c n (t # ts))) =
        puts acts @ puts (fst (ordered_loop lim put tot c' n' ts))"
    by (auto simp: n'_def)
  then have "puts (fst (ordered_loop lim put tot c n (t # ts))) = calls_of (t # ts) (k # ks)"
    using k ks by (simp add: calls_of_def)
  then show ?case using k ks
    by (intro exI [of _ "k # ks"]) simp
qed

lemma counted_simps [simp]:
  "counted (Yield (Progress n tot p cur)) = (1 \<le> n \<and> 1 \<le> tot)"
  "counted (Yield (Error e nm))" "counted (Yield (BatchError e i))"
  "counted (Yield (RateLimit r))" "counted (Yield (Complete a b))"
  "counted (Put x)" "counted (BulkAdd xs)" "counted (Sleep d)"
  by (simp_all add: counted_def)

lemma division_error_simps [simp]:
  "division_error (Yield (Error e nm)) = (e = ZeroDivisionError)"
  "division_error (Yield (BatchError e i)) = (e = ZeroDivisionError)"
  "\<not> division_error (Yield (Progress n tot p cur))"
  "\<not> division_error (Yield (RateLimit r))" "\<not> division_error (Yield (Complete a b))"
  "\<not> division_error (Put x)" "\<not> division_error (BulkAdd xs)" "\<not> division_error (Sleep d)"
  by (simp_all add: division_error_def)

lemma percent_Inr: "0 < tot \<Longrightarrow> \<exists>p. percent n tot = Inr p"
  by (simp add: percent_def py_truediv_def)

lemma percent_Inl: "percent n 0 = Inl ZeroDivisionError"
  by (simp add: percent_def py_truediv_def)

lemma put_track_no_division:
  "put_track lim put c t = (acts, c', raised) \<Longrightarrow>
   raised \<noteq> Some ZeroDivisionError \<and> \<not> list_ex division_error acts \<and> list_all counted acts"
  by (auto simp: put_track_def retry_after_of_def sleep_def
           split: put_outcome.splits retry_after_header.splits if_splits)

lemma ordered_loop_no_division:
  "0 < tot \<Longrightarrow> \<not> list_ex division_error (fst (ordered_loop lim put tot c n ts)) \<and>
     list_all counted (fst (ordered_loop lim put tot c n ts))"
proof (induction ts arbitrary: c n)
  case Nil
  show ?case by simp
next
  case (Cons t ts)
  obtain acts c' raised where p: "put_track lim put c t = (acts, c', raised)"
    by (cases "put_track lim put c t") auto
  obtain q where q: "percent (n + 1) tot = Inr q"
    using percent_Inr [OF Cons.prems] by blast
  show ?case
    using p put_track_no_division [OF p] Cons.IH [OF Cons.prems] q Cons.prems
    by (cases raised) (auto simp: report_def split_beta)
qed

lemma batch_loop_no_division:
  "0 < tot \<Longrightarrow> \<forall>i\<in>set is. i < length tracks \<Longrightarrow>
   \<not> list_ex division_error (fst (batch_loop add tracks tot c n is)) \<and>
   list_all counted (fst (batch_loop add tracks tot c n is))"
proof (induction "is" arbitrary: c n)
  case Nil
  show ?case by simp
next
  case (Cons i "is")
  obtain q where q: "percent (n + length (slice tracks i (i + 50))) tot = Inr q"
    using percent_Inr [OF Cons.prems(1)] by blast
  have len: "Suc 0 \<le> n + length (slice tracks i (i + 50))"
    using Cons.prems(2) by (auto simp: slice_def min_def)
  have rest: "\<not> list_ex division_error (fst (batch_loop add tracks tot c' n' is)) \<and>
      list_all counted (fst (batch_loop add tracks tot c' n' is))" for c' n'
    using Cons.IH [OF Cons.prems(1)] Cons.prems(2) by simp
  show ?case
  proof (cases "add c")
    case (AddRaises e)
    then show ?thesis
      using rest [of "c + 1" n] by (simp add: Let_def split_beta)
  next
    case AddReturns
    then show ?thesis
      using rest [of "c + 1" "n + length (slice tracks i (i + 50))"] q len Cons.prems(1)
      by (simp add: Let_def split_beta)
  qed
qed

lemma py_range_bound: "\<forall>i\<in>set (py_range tot step). i < tot"
  by (simp add: py_range_def)

lemma transfer_tracks_empty: "transfer_tracks lim sp_client [] preserve_order = [Yield (Complete 0 0)]"
  by (simp add: transfer_tracks_def py_range_def)

lemma transfer_tracks_no_division:
  "\<not> list_ex division_error (transfer_tracks lim sp_client tracks preserve_order) \<and>
   list_all counted (transfer_tracks lim sp_client tracks preserve_order)"
proof (cases "tracks = []")
  case True
  then show ?thesis
    by (simp add: transfer_tracks_empty)
next
  case False
  then have pos: "0 < length tracks" by simp
  show ?thesis
    using ordered_loop_no_division [OF pos, of lim "put_api sp_client" 0 0 "sort_key added_at tracks"]
      batch_loop_no_division [OF pos py_range_bound]
    by (cases preserve_order) (simp_all add: transfer_tracks_ordered transfer_tracks_batch)
qed

lemma bulk_adds_append [simp]: "bulk_adds (xs @ ys) = bulk_adds xs @ bulk_adds ys"
  by (induction xs rule: bulk_adds.induct) simp_all



lemma bulk_adds_batch_loop:
  "bulk_adds (fst (batch_loop add tracks tot c n is)) =
     map (\<lambda>i. map track_id (slice tracks i (i + 50))) is"
proof (induction "is" arbitrary: c n)
  case Nil
  show ?case by simp
next
  case (Cons i "is")
  show ?case
    by (cases "add c"; cases "percent (n + length (slice tracks i (i + 50))) tot")
       (simp_all add: Let_def split_beta Cons.IH)
qed

lemma put_track_rate_limited:
  assumes "put c = PutResponse 429 h"
    and "h = Unspecified \<and> retry_after = 30 \<or> h = Seconds retry_after"
    and "0 \<le> retry_after" and "retry_after \<le> min lim 9223372036"
  shows "put_track lim put c t =
     ([Put (track_id t), Yield (RateLimit retry_after), Sleep (Secs retry_after), Put (track_id t)],
      c + 2,
      case put (c + 1) of
        PutRaises m \<Rightarrow> Some (ClientError (RequestException m))
      | PutResponse status' h' \<Rightarrow> None)"
  using assms
  by (auto simp: put_track_def retry_after_of_def sleep_def split: put_outcome.split)

lemma put_track_accepted:
  "\<forall>c. \<exists>s h. put c = PutResponse s h \<and> s \<noteq> 429 \<Longrightarrow>
   put_track lim put c t = ([Put (track_id t)], c + 1, None)"
proof -
  assume "\<forall>c. \<exists>s h. put c = PutResponse s h \<and> s \<noteq> 429"
  then obtain s h where "put c = PutResponse s h" "s \<noteq> 429" by blast
  then show ?thesis by (simp add: put_track_def)
qed

lemma report_events:
  "0 < tot \<Longrightarrow>
   report k tot t =
     Inr (if k mod 10 = 0 \<or> k = tot
          then [Yield (Progress k tot (percent_of k tot) (Some (name t)))] else [])"
  by (auto simp: report_def percent_of_def percent_def py_truediv_def)

lemma ordered_loop_accepted:
  assumes ok: "\<forall>c. \<exists>s h. put c = PutResponse s h \<and> s \<noteq> 429" and pos: "0 < tot"
  shows "events (fst (ordered_loop lim put tot c n ts)) =
       map (\<lambda>k. Progress k tot (percent_of k tot) (Some (name (ts ! (k - n - 1)))))
         (filter (\<lambda>k. k mod 10 = 0 \<or> k = tot) [n + 1..<n + length ts + 1]) \<and>
     snd (ordered_loop lim put tot c n ts) = n + length ts"
proof (induction ts arbitrary: c n)
  case Nil
  show ?case by simp
next
  case (Cons t ts)
  let ?P = "\<lambda>k. k mod 10 = 0 \<or> k = tot"
  have step: "ordered_loop lim put tot c n (t # ts) =
      ([Put (track_id t)] @
       (if ?P (n + 1) then [Yield (Progress (n + 1) tot (percent_of (n + 1) tot) (Some (name t)))]
        else []) @
       [Sleep (Millis 150)] @ fst (ordered_loop lim put tot (c + 1) (n + 1) ts),
       snd (ordered_loop lim put tot (c + 1) (n + 1) ts))"
    by (simp add: put_track_accepted [OF ok] report_events [OF pos] split_beta)
  have upt: "[n + 1..<n + length (t # ts) + 1] = (n + 1) # [n + 1 + 1..<n + 1 + length ts + 1]"
    using upt_conv_Cons [of "n + 1" "n + length (t # ts) + 1"] by simp
  have shift: "map (\<lambda>k. Progress k tot (percent_of k tot) (Some (name ((t # ts) ! (k - n - 1)))))
        (filter ?P [n + 1 + 1..<n + 1 + length ts + 1]) =
      map (\<lambda>k. Progress k tot (percent_of k tot) (Some (name (ts ! (k - (n + 1) - 1)))))
        (filter ?P [n + 1 + 1..<n + 1 + length ts + 1])"
    by (rule map_cong) (auto simp: nth_Cons')
  show ?case
    unfolding step upt
    using Cons.IH [of "c + 1" "n + 1"] shift
    by (simp del: upt_Suc)
qed

lemma transfer_tracks_accepted:
  assumes ok: "\<forall>c. \<exists>s h. put_api sp_client c = PutResponse s h \<and> s \<noteq> 429"
    and pos: "tracks \<noteq> []"
  shows "events (transfer_tracks lim sp_client tracks True) =
     map (\<lambda>k. Progress k (length tracks) (percent_of k (length tracks))
                (Some (name (sort_key added_at tracks ! (k - 1)))))
       (filter (\<lambda>k. k mod 10 = 0 \<or> k = length tracks) [1..<length tracks + 1]) @
     [Complete (length tracks) (length tracks)]"
proof -
  have "0 < length tracks" using pos by simp
  from ordered_loop_accepted [OF ok this, of lim 0 0 "sort_key added_at tracks"]
  show ?thesis
    by (simp add: transfer_tracks_ordered del: upt_Suc)
qed

lemma percent_290_of_500: "percent_of 290 500 = 57"
  by code_simp

lemma count95: "filter (\<lambda>k. k mod 10 = 0 \<or> k = 95) [1..<95 + 1] = [10, 20, 30, 40, 50, 60, 70, 80, 90, 95::nat]"
  by code_simp

lemma decimal_example: "decimal 289 = ''289''"
  by code_simp

lemma respond_accepts: "\<forall>c. \<exists>s h. put_api (respond []) c = PutResponse s h \<and> s \<noteq> 429"
  by (simp add: respond_def)

lemma sorted_library: "sort_key added_at (library n) = library n"
proof -
  have "map added_at (library n) = replicate n ''2024-01-01T10:00:00Z''"
    by (simp add: library_def song_def map_replicate_const comp_def)
  then have "sorted (map added_at (library n))"
    by (simp add: sorted_replicate)
  then show ?thesis
    by (rule sort_key_id_if_sorted)
qed


lemma batch_loop_heap_eq:
  "tracks < length h \<Longrightarrow>
   batch_loop_heap add h tracks tot c n is =
     (batch_loop add (h ! tracks) tot c n is,
      h @ map (\<lambda>i. slice (h ! tracks) i (i + 50)) is)"
proof (induction "is" arbitrary: h c n)
  case Nil
  show ?case by simp
next
  case (Cons i "is")
  let ?h' = "h @ [slice (h ! tracks) i (i + 50)]"
  have lt: "tracks < length ?h'" using Cons.prems by simp
  have same: "?h' ! tracks = h ! tracks" using Cons.prems by (simp add: nth_append)
  note ih = Cons.IH [OF lt, unfolded same]
  show ?case
    by (cases "add c"; cases "percent (n + length (slice (h ! tracks) i (i + 50))) tot")
       (simp_all add: py_slice_def alloc_def Let_def ih split_beta)
qed

text \<open>
  In ordered mode a call that raises gives the error dict with the name of the track and
  leaves the counter as it is. Every run ends with \<open>Complete\<close>; each track is either
  counted or reported by an error dict, and progress dicts come only at counts that are
  a multiple of 10 or the total.
\<close>

lemma periodic_simps [simp]:
  "periodic (Yield (Progress n tot p cur)) = (n mod 10 = 0 \<or> n = tot)"
  "periodic (Yield (Error e nm))" "periodic (Yield (RateLimit r))"
  "periodic (Put x)" "periodic (Sleep d)"
  by (simp_all add: periodic_def)

lemma is_error_simps [simp]:
  "is_error (Yield (Error e nm))" "\<not> is_error (Yield (Progress n tot p cur))"
  "\<not> is_error (Yield (RateLimit r))" "\<not> is_error (Put x)" "\<not> is_error (Sleep d)"
  by (simp_all add: is_error_def)

lemma put_track_plain:
  "put_track lim put c t = (acts, c', raised) \<Longrightarrow>
   list_all periodic acts \<and> filter is_error acts = []"
  by (auto simp: put_track_def retry_after_of_def sleep_def
           split: put_outcome.splits retry_after_header.splits if_splits)

lemma ordered_loop_put_raises:
  "put c = PutRaises m \<Longrightarrow>
   ordered_loop lim put tot c n (t # ts) =
     ([Put (track_id t), Yield (Error (ClientError (RequestException m)) (name t)),
       Sleep (Millis 150)] @ fst (ordered_loop lim put tot (c + 1) n ts),
      snd (ordered_loop lim put tot (c + 1) n ts))"
  by (simp add: put_track_def split_beta)

lemma ordered_loop_accounting:
  "0 < tot \<Longrightarrow>
   list_all periodic (fst (ordered_loop lim put tot c n ts)) \<and>
   snd (ordered_loop lim put tot c n ts) + length (filter is_error (fst (ordered_loop lim put tot c n ts))) =
     n + length ts"
proof (induction ts arbitrary: c n)
  case Nil
  show ?case by simp
next
  case (Cons t ts)
  obtain acts c' raised where p: "put_track lim put c t = (acts, c', raised)"
    by (cases "put_track lim put c t") auto
  note plain = put_track_plain [OF p]
  show ?case
  proof (cases raised)
    case (Some e)
    then show ?thesis
      using p plain Cons.IH [OF Cons.prems, of c' n] by (simp add: split_beta)
  next
    case None
    then show ?thesis
      using p plain Cons.IH [OF Cons.prems, of c' "n + 1"]
      by (simp add: split_beta report_events [OF Cons.prems])
  qed
qed

lemma transfer_tracks_accounting:
  "\<exists>acts transferred.
     transfer_tracks lim sp_client tracks True = acts @ [Yield (Complete transferred (length tracks))] \<and>
     list_all periodic acts \<and>
     transferred + length (filter is_error acts) = length tracks"
proof (cases "tracks = []")
  case True
  then show ?thesis by (simp add: transfer_tracks_ordered)
next
  case False
  then have "0 < length tracks" by simp
  from ordered_loop_accounting [OF this, of lim "put_api sp_client" 0 0 "sort_key added_at tracks"]
  show ?thesis
    by (simp add: transfer_tracks_ordered)
qed





subsection \<open>Order of the calls, and the division\<close>

text \<open>
  C1. In ordered mode the single-item calls follow the list sorted by \<open>added_at\<close>: the call
  sequence sends the id of each track of the sorted list once or twice (twice after a
  rate limit), in the order of that list, whatever the destination answers. The sorted
  list is ascending in \<open>added_at\<close>, and the sort is stable: the tracks of one key keep
  their order of the input.
\<close>

theorem transfer_tracks_calls_ascending:
  "(\<exists>ks. length ks = length tracks \<and> list_all (\<lambda>k. k = 1 \<or> k = 2) ks \<and>
      puts (transfer_tracks lim sp_client tracks True) = calls_of (sort_key added_at tracks) ks) \<and>
   sorted (map added_at (sort_key added_at tracks)) \<and>
   (\<forall>k. filter (\<lambda>t. added_at t = k) (sort_key added_at tracks) =
        filter (\<lambda>t. added_at t = k) tracks)"
proof -
  obtain ks where "length ks = length (sort_key added_at tracks)"
      "list_all (\<lambda>k. k = 1 \<or> k = 2) ks"
      "puts (fst (ordered_loop lim (put_api sp_client) (length tracks) 0 0 (sort_key added_at tracks))) =
       calls_of (sort_key added_at tracks) ks"
    using puts_ordered_loop by blast
  then have "\<exists>ks. length ks = length tracks \<and> list_all (\<lambda>k. k = 1 \<or> k = 2) ks \<and>
      puts (transfer_tracks lim sp_client tracks True) = calls_of (sort_key added_at tracks) ks"
    by (intro exI [of _ ks]) (simp add: transfer_tracks_ordered)
  then show ?thesis
    by (simp add: sort_key_stable)
qed

text \<open>The end-to-end scenario: three tracks added on the 3rd, the 1st and the 2nd.\<close>

lemma transfer_tracks_order_example:
  "puts (transfer_tracks linux_limit (respond [])
     [song ''t3'' ''2024-01-03T10:00:00Z'', song ''t1'' ''2024-01-01T10:00:00Z'',
      song ''t2'' ''2024-01-02T10:00:00Z''] True) = [''t1'', ''t2'', ''t3''] \<and>
   last (transfer_tracks linux_limit (respond [])
     [song ''t3'' ''2024-01-03T10:00:00Z'', song ''t1'' ''2024-01-01T10:00:00Z'',
      song ''t2'' ''2024-01-02T10:00:00Z''] True) = Yield (Complete 3 3)"
  by code_simp


text \<open>
  C9. On the empty list either mode yields the one dict \<open>Complete 0 0\<close>. In every run,
  no error dict carries \<open>ZeroDivisionError\<close>, so the division never takes its error
  branch, and every progress dict has both counts at least 1.
\<close>

theorem transfer_tracks_division_safe:
  "transfer_tracks lim sp_client [] preserve_order = [Yield (Complete 0 0)] \<and>
   \<not> list_ex division_error (transfer_tracks lim sp_client tracks preserve_order) \<and>
   list_all counted (transfer_tracks lim sp_client tracks preserve_order)"
  using transfer_tracks_empty transfer_tracks_no_division by simp

subsection \<open>Failed insertions\<close>

text \<open>
  C2. The call for the one track of the snapshot is answered with status 401: the
  insertion has failed, yet no error dict is yielded, the track is counted and the run
  ends with \<open>Complete 1 1\<close>. \<open>requests.put\<close> returns the response and only status 429 is
  looked at. In batch mode the client library raises on such an answer, and the run
  yields the error dict and counts nothing. The same holds of the second call for a
  track, sent after a rate limit: answered with status 401, it is not read, and the track
  is counted.
\<close>

theorem transfer_tracks_counts_failed_response:
  "transfer_tracks linux_limit (respond [PutResponse 401 Unspecified])
     [song ''a'' ''2024-01-01T10:00:00Z''] True =
     [Put ''a'', Yield (Progress 1 1 100 (Some ''a'')), Sleep (Millis 150), Yield (Complete 1 1)] \<and>
   transfer_tracks linux_limit \<lparr>put_api = (\<lambda>n. PutResponse 200 Unspecified),
                    add_api = (\<lambda>n. AddRaises (SpotifyException 401 Unspecified))\<rparr>
     [song ''a'' ''2024-01-01T10:00:00Z''] False =
     [BulkAdd [''a''], Yield (BatchError (ClientError (SpotifyException 401 Unspecified)) 0),
      Sleep (Millis 500), Yield (Complete 0 1)] \<and>
   transfer_tracks linux_limit (respond [PutResponse 429 (Seconds 1), PutResponse 401 Unspecified])
     [song ''a'' ''2024-01-01T10:00:00Z''] True =
     [Put ''a'', Yield (RateLimit 1), Sleep (Secs 1), Put ''a'',
      Yield (Progress 1 1 100 (Some ''a'')), Sleep (Millis 150), Yield (Complete 1 1)]"
  by code_simp

text \<open>A call that raises, for comparison: the error dict, and the track is not counted.\<close>

lemma transfer_tracks_put_raises_example:
  "transfer_tracks linux_limit (respond [PutRaises ''connection reset''])
     [song ''t1'' ''2024-01-01T10:00:00Z'', song ''t2'' ''2024-01-02T10:00:00Z''] True =
     [Put ''t1'', Yield (Error (ClientError (RequestException ''connection reset'')) ''t1''),
      Sleep (Millis 150),
      Put ''t2'', Sleep (Millis 150),
      Yield (Complete 1 2)]"
  by code_simp

subsection \<open>Rate limits\<close>

text \<open>
  C3, as amended. Let the loop have sent \<open>c\<close> calls and counted \<open>n\<close> tracks, and let the
  call for the next track \<open>t\<close> be answered with status 429 and a Retry-After header that
  is absent (then the delay is 30) or a number of seconds, the delay being one that
  \<open>time.sleep\<close> takes: not negative, at most 9223372036 and within the limit of the
  platform. Then the run
  yields the rate-limit dict with that delay, sleeps for it and sends the same call once
  more; nothing else is sent for \<open>t\<close>, and the loop goes on to the next track with call
  \<open>c + 2\<close>. If the second call raises, the run yields the error dict with the name of \<open>t\<close>
  and does not count \<open>t\<close>. In every run each track is sent once or twice.
\<close>

theorem transfer_tracks_rate_limit_retry:
  assumes "put c = PutResponse 429 h"
    and "h = Unspecified \<and> retry_after = 30 \<or> h = Seconds retry_after"
    and "0 \<le> retry_after" and "retry_after \<le> min lim 9223372036"
  shows "(\<exists>mid n'.
       fst (ordered_loop lim put tot c n (t # ts)) =
         [Put (track_id t), Yield (RateLimit retry_after), Sleep (Secs retry_after),
          Put (track_id t)] @ mid @ [Sleep (Millis 150)] @
         fst (ordered_loop lim put tot (c + 2) n' ts) \<and>
       puts mid = [] \<and>
       (\<forall>m. put (c + 1) = PutRaises m \<longrightarrow>
          mid = [Yield (Error (ClientError (RequestException m)) (name t))] \<and> n' = n)) \<and>
     (\<exists>ks. length ks = length tracks \<and> list_all (\<lambda>k. k = 1 \<or> k = 2) ks \<and>
        puts (transfer_tracks lim sp_client tracks True) = calls_of (sort_key added_at tracks) ks)"
proof -
  note p = put_track_rate_limited [where put = put and c = c and t = t, OF assms]
  have 1: "\<exists>mid n'.
       fst (ordered_loop lim put tot c n (t # ts)) =
         [Put (track_id t), Yield (RateLimit retry_after), Sleep (Secs retry_after),
          Put (track_id t)] @ mid @ [Sleep (Millis 150)] @
         fst (ordered_loop lim put tot (c + 2) n' ts) \<and>
       puts mid = [] \<and>
       (\<forall>m. put (c + 1) = PutRaises m \<longrightarrow>
          mid = [Yield (Error (ClientError (RequestException m)) (name t))] \<and> n' = n)"
  proof (cases "put (c + 1)")
    case (PutRaises m)
    with p have "put_track lim put c t =
        ([Put (track_id t), Yield (RateLimit retry_after), Sleep (Secs retry_after),
          Put (track_id t)], c + 2, Some (ClientError (RequestException m)))"
      by simp
    then show ?thesis
      using PutRaises
      by (intro exI [of _ "[Yield (Error (ClientError (RequestException m)) (name t))]"]
            exI [of _ n])
         (simp add: split_beta)
  next
    case (PutResponse status' h')
    with p have q: "put_track lim put c t =
        ([Put (track_id t), Yield (RateLimit retry_after), Sleep (Secs retry_after),
          Put (track_id t)], c + 2, None)"
      by simp
    show ?thesis
    proof (cases "report (n + 1) tot t")
      case (Inl e)
      then show ?thesis
        using PutResponse
        by (intro exI [of _ "[Yield (Error e (name t))]"] exI [of _ "n + 1"])
           (simp add: q split_beta)
    next
      case (Inr evs)
      then have "puts evs = []"
        by (auto simp: report_def split: if_splits sum.splits)
      with Inr show ?thesis
        using PutResponse
        by (intro exI [of _ evs] exI [of _ "n + 1"]) (simp add: q split_beta)
    qed
  qed
  obtain ks where "length ks = length (sort_key added_at tracks)"
      "list_all (\<lambda>k. k = 1 \<or> k = 2) ks"
      "puts (fst (ordered_loop lim (put_api sp_client) (length tracks) 0 0 (sort_key added_at tracks))) =
         calls_of (sort_key added_at tracks) ks"
    using puts_ordered_loop by blast
  then have 2: "\<exists>ks. length ks = length tracks \<and> list_all (\<lambda>k. k = 1 \<or> k = 2) ks \<and>
        puts (transfer_tracks lim sp_client tracks True) = calls_of (sort_key added_at tracks) ks"
    by (intro exI [of _ ks]) (simp add: transfer_tracks_ordered)
  from 1 2 show ?thesis by blast
qed

theorem transfer_tracks_rate_limit_retry_witness:
  "\<exists>mid n'.
     fst (ordered_loop linux_limit (put_api (respond [PutResponse 429 (Seconds 2), PutRaises ''timed out'']))
            2 0 0 [song ''a'' ''2024-01-01T10:00:00Z'', song ''b'' ''2024-01-02T10:00:00Z'']) =
       [Put ''a'', Yield (RateLimit 2), Sleep (Secs 2), Put ''a''] @ mid @ [Sleep (Millis 150)] @
       fst (ordered_loop linux_limit (put_api (respond [PutResponse 429 (Seconds 2), PutRaises ''timed out'']))
              2 (0 + 2) n' [song ''b'' ''2024-01-02T10:00:00Z'']) \<and>
     mid = [Yield (Error (ClientError (RequestException ''timed out'')) ''a'')] \<and> n' = 0"
proof -
  have h1: "put_api (respond [PutResponse 429 (Seconds 2), PutRaises ''timed out'']) 0 =
      PutResponse 429 (Seconds 2)"
    by (simp add: respond_def)
  have h2: "Seconds 2 = Unspecified \<and> (2::int) = 30 \<or> Seconds 2 = Seconds 2"
    by simp
  have h4: "(0::int) \<le> 2" and h5: "(2::int) \<le> min linux_limit 9223372036"
    by (simp_all add: linux_limit_def)
  have h3: "put_api (respond [PutResponse 429 (Seconds 2), PutRaises ''timed out'']) (0 + 1) =
      PutRaises ''timed out''"
    by (simp add: respond_def)
  from transfer_tracks_rate_limit_retry
      [where put = "put_api (respond [PutResponse 429 (Seconds 2), PutRaises ''timed out''])"
         and c = 0 and tot = 2 and n = 0 and t = "song ''a'' ''2024-01-01T10:00:00Z''"
         and ts = "[song ''b'' ''2024-01-02T10:00:00Z'']" and lim = linux_limit,
       OF h1 h2 h4 h5] h3
  show ?thesis
    by (auto simp: song_def)
qed

text \<open>
  When the second call is answered with a failure status (429 again, here), nothing
  reads the answer: the track is counted and no error dict is yielded. When the header of
  the first answer is one that \<open>int\<close> does not read, the run yields the error dict for
  the track, and neither a rate-limit dict nor a second call. When the header is a number
  of seconds that \<open>time.sleep\<close> refuses, the run yields the rate-limit dict and then the
  error dict, and sends no second call.
\<close>

theorem transfer_tracks_rate_limit_retry_counterexample:
  "transfer_tracks linux_limit (respond [PutResponse 429 (Seconds 1), PutResponse 429 (Seconds 1)])
     [song ''a'' ''2024-01-01T10:00:00Z''] True =
     [Put ''a'', Yield (RateLimit 1), Sleep (Secs 1), Put ''a'',
      Yield (Progress 1 1 100 (Some ''a'')), Sleep (Millis 150), Yield (Complete 1 1)] \<and>
   transfer_tracks linux_limit (respond [PutResponse 429 Malformed])
     [song ''a'' ''2024-01-01T10:00:00Z''] True =
     [Put ''a'', Yield (Error ValueError ''a''), Sleep (Millis 150), Yield (Complete 0 1)] \<and>
   transfer_tracks linux_limit (respond [PutResponse 429 (Seconds 10000000000)])
     [song ''a'' ''2024-01-01T10:00:00Z''] True =
     [Put ''a'', Yield (RateLimit 10000000000), Yield (Error OverflowError ''a''),
      Sleep (Millis 150), Yield (Complete 0 1)]"
  by code_simp

subsection \<open>Progress\<close>

text \<open>
  C4. A library of 500 tracks, every call answered with status 200. At the 290th track the
  run yields the progress dict with percent 57, while \<open>floor(290 / 500 * 100)\<close> is 58:
  the float \<open>290 / 500\<close> is just below 0.58, its product with 100 is rounded to
  57.99999999999999, and \<open>int\<close> truncates.
\<close>

theorem transfer_tracks_percent_290_of_500:
  "Progress 290 500 57 (Some ''289'')
     \<in> set (events (transfer_tracks linux_limit (respond []) (library 500) True)) \<and>
   (100 * 290) div 500 = (58::int)"
proof -
  have len: "length (library 500) = 500" and ne: "library 500 \<noteq> []"
    by (simp_all add: library_def)
  have nm: "name (library 500 ! 289) = ''289''"
    by (simp add: library_def song_def decimal_example)
  have "290 \<in> set (filter (\<lambda>k. k mod 10 = 0 \<or> k = 500) [1..<500 + 1])"
    by simp
  then have "(\<lambda>k. Progress k 500 (percent_of k 500)
         (Some (name (sort_key added_at (library 500) ! (k - 1))))) 290
      \<in> set (events (transfer_tracks linux_limit (respond []) (library 500) True))"
    unfolding transfer_tracks_accepted [OF respond_accepts ne] len
    by (simp only: set_append set_map) blast
  then show ?thesis
    by (simp add: percent_290_of_500 sorted_library nm)
qed


text \<open>
  When every call is accepted, a run on 95 tracks yields ten progress dicts, at the counts
  10, 20, ..., 90 and 95, and then \<open>Complete 95 95\<close>.
\<close>

lemma transfer_tracks_progress_95:
  assumes "\<forall>c. \<exists>s h. put_api sp_client c = PutResponse s h \<and> s \<noteq> 429"
    and "length tracks = 95"
  shows "events (transfer_tracks lim sp_client tracks True) =
     map (\<lambda>k. Progress k 95 (percent_of k 95) (Some (name (sort_key added_at tracks ! (k - 1)))))
       [10, 20, 30, 40, 50, 60, 70, 80, 90, 95] @ [Complete 95 95]"
proof -
  have ne: "tracks \<noteq> []" using assms(2) by auto
  show ?thesis
    unfolding transfer_tracks_accepted [OF assms(1) ne] assms(2) count95 ..
qed

subsection \<open>Repeated runs\<close>





text \<open>A library of 120 tracks in batch mode: three bulk calls, of 50, 50 and 20 ids.\<close>

lemma transfer_tracks_batch_example:
  "map length (bulk_adds (transfer_tracks lim sp_client (library 120) False)) = [50, 50, 20]"
proof -
  have r: "py_range 120 50 = [0, 50, 100]"
    by code_simp
  have "bulk_adds (transfer_tracks lim sp_client (library 120) False) =
      map (\<lambda>i. map track_id (slice (library 120) i (i + 50))) (py_range (length (library 120)) 50)"
    by (simp add: transfer_tracks_batch bulk_adds_batch_loop)
  then show ?thesis
    by (simp add: library_def r slice_def)
qed

subsection \<open>The caller's list\<close>

text \<open>
  C10. Let \<open>tracks\<close> be the address of a list object of the store. After a run in either
  mode, the object at \<open>tracks\<close> is the list it was, item for item; indeed every object of
  the store before the run is unchanged, the run has only added objects. What the run
  does is what \<open>transfer_tracks\<close> does on the value of that list.
\<close>

theorem transfer_tracks_frame:
  assumes "tracks < length h"
  shows "snd (transfer_tracks_heap lim sp_client h tracks preserve_order) ! tracks = h ! tracks \<and>
     take (length h) (snd (transfer_tracks_heap lim sp_client h tracks preserve_order)) = h \<and>
     fst (transfer_tracks_heap lim sp_client h tracks preserve_order) =
       transfer_tracks lim sp_client (h ! tracks) preserve_order"
proof (cases preserve_order)
  case True
  then show ?thesis
    using assms
    by (simp add: transfer_tracks_heap_def py_sorted_def alloc_def Let_def split_beta
          transfer_tracks_ordered nth_append)
next
  case False
  then show ?thesis
    using assms
    by (simp add: transfer_tracks_heap_def batch_loop_heap_eq Let_def split_beta
          transfer_tracks_batch nth_append)
qed

theorem transfer_tracks_frame_witness:
  "snd (transfer_tracks_heap linux_limit (respond []) [snapshot] 0 True) ! 0 = [snapshot] ! 0 \<and>
   take (length [snapshot]) (snd (transfer_tracks_heap linux_limit (respond []) [snapshot] 0 True)) = [snapshot] \<and>
   fst (transfer_tracks_heap linux_limit (respond []) [snapshot] 0 True) =
     transfer_tracks linux_limit (respond []) ([snapshot] ! 0) True"
proof -
  have h: "0 < length [snapshot]" by simp
  show ?thesis by (rule transfer_tracks_frame [OF h])
qed

lemma frame_example:
  "snd (transfer_tracks_heap linux_limit (respond []) [snapshot] 0 True) = [snapshot, sort_key added_at snapshot] \<and>
   snd (transfer_tracks_heap linux_limit (respond []) [snapshot] 0 False) = [snapshot, snapshot]"
  by code_simp

section \<open>Properties of get_all_saved_tracks\<close>

lemma fetches_append [simp]: "fetches (xs @ ys) = fetches xs @ fetches ys"
  by (induction xs rule: fetches.induct) simp_all

lemma fetched_append [simp]: "fetched (xs @ ys) = fetched xs @ fetched ys"
  by (induction xs rule: fetched.induct) simp_all

lemma fetches_yield_tracks [simp]: "fetches (yield_tracks items) = []"
  by (induction items) (simp_all split: option.split)

lemma fetched_yield_tracks [simp]: "fetched (yield_tracks items) = []"
  by (induction items) (simp_all split: option.split)

lemma fetch_loop_starts:
  "\<exists>rest. fst (fetch_loop lim answers offset tot) = Fetch limit offset # rest"
proof (cases answers)
  case Nil
  then show ?thesis by simp
next
  case (Cons a as)
  then show ?thesis
    by (cases a) (auto simp: Let_def split_beta split: client_error.split sum.split option.split)
qed

lemma fetch_loop_rate_limit:
  "retry_after_of h = Inr ra \<Longrightarrow> sleep lim ra = None \<Longrightarrow>
   fetch_loop lim (FetchRaises (SpotifyException 429 h) # answers) offset tot =
     ([Fetch limit offset, Yield (RateLimit ra), Sleep (Secs ra)] @
        fst (fetch_loop lim answers offset tot),
      snd (fetch_loop lim answers offset tot))"
  by (simp add: split_beta)

lemma fetch_loop_fatal:
  "(\<forall>h. e \<noteq> SpotifyException 429 h) \<Longrightarrow>
   fetch_loop lim (FetchRaises e # answers) offset tot = ([Fetch limit offset], Raised (ClientError e))"
  by (cases e) simp_all

lemma fetch_loop_page:
  "page_items p \<noteq> [] \<Longrightarrow>
   fetch_loop lim (FetchReturns p # answers) offset tot =
     ([Fetch limit offset] @
        (case tot of None \<Rightarrow> [Yield (Total (page_total p))] | Some n \<Rightarrow> []) @
        yield_tracks (page_items p) @
        [Yield (Fetched (min (int (offset + limit)) (case tot of None \<Rightarrow> page_total p | Some n \<Rightarrow> n))
                  (case tot of None \<Rightarrow> page_total p | Some n \<Rightarrow> n)),
         Sleep (Millis 300)] @
        fst (fetch_loop lim answers (offset + limit)
               (Some (case tot of None \<Rightarrow> page_total p | Some n \<Rightarrow> n))),
      snd (fetch_loop lim answers (offset + limit)
             (Some (case tot of None \<Rightarrow> page_total p | Some n \<Rightarrow> n))))"
  by (simp add: Let_def split_beta)


lemma fetch_loop_running_cases:
  assumes "snd (fetch_loop lim (a # pre) offset tot) = Running"
  shows "(\<exists>h ra. a = FetchRaises (SpotifyException 429 h) \<and> retry_after_of h = Inr ra \<and>
            sleep lim ra = None \<and>
            snd (fetch_loop lim pre offset tot) = Running) \<or>
         (\<exists>p. a = FetchReturns p \<and> page_items p \<noteq> [] \<and>
            snd (fetch_loop lim pre (offset + limit)
                   (Some (case tot of None \<Rightarrow> page_total p | Some n \<Rightarrow> n))) = Running)"
proof (cases a)
  case (FetchRaises e)
  with assms show ?thesis
    by (cases e) (auto simp: split_beta split: if_splits sum.splits option.splits)
next
  case (FetchReturns p)
  with assms show ?thesis
    by (auto simp: Let_def split_beta split: if_splits)
qed

lemma fetch_loop_running:
  "snd (fetch_loop lim pre offset tot) = Running \<Longrightarrow>
   \<exists>before offset' tot'. \<forall>more.
      fetch_loop lim (pre @ more) offset tot =
        (before @ fst (fetch_loop lim more offset' tot'), snd (fetch_loop lim more offset' tot'))"
proof (induction pre arbitrary: offset tot)
  case Nil
  show ?case
    by (intro exI [of _ "[]"] exI [of _ offset] exI [of _ tot]) simp
next
  case (Cons a pre)
  from fetch_loop_running_cases [OF Cons.prems]
  show ?case
  proof (elim disjE exE conjE)
    fix h ra
    assume a: "a = FetchRaises (SpotifyException 429 h)" "retry_after_of h = Inr ra"
      "sleep lim ra = None"
      and run: "snd (fetch_loop lim pre offset tot) = Running"
    from Cons.IH [OF run] obtain before offset' tot'
      where ih: "\<And>more. fetch_loop lim (pre @ more) offset tot =
          (before @ fst (fetch_loop lim more offset' tot'), snd (fetch_loop lim more offset' tot'))"
      by blast
    show ?thesis
      by (intro exI [of _ "[Fetch limit offset, Yield (RateLimit ra), Sleep (Secs ra)] @ before"]
            exI [of _ offset'] exI [of _ tot'])
         (simp add: a fetch_loop_rate_limit ih del: fetch_loop.simps)
  next
    fix p
    assume a: "a = FetchReturns p" "page_items p \<noteq> []"
      and run: "snd (fetch_loop lim pre (offset + limit)
                   (Some (case tot of None \<Rightarrow> page_total p | Some n \<Rightarrow> n))) = Running"
    from Cons.IH [OF run] obtain before offset' tot'
      where ih: "\<And>more. fetch_loop lim (pre @ more) (offset + limit)
            (Some (case tot of None \<Rightarrow> page_total p | Some n \<Rightarrow> n)) =
          (before @ fst (fetch_loop lim more offset' tot'), snd (fetch_loop lim more offset' tot'))"
      by blast
    show ?thesis
      by (intro exI [of _ "[Fetch limit offset] @
              (case tot of None \<Rightarrow> [Yield (Total (page_total p))] | Some n \<Rightarrow> []) @
              yield_tracks (page_items p) @
              [Yield (Fetched (min (int (offset + limit))
                         (case tot of None \<Rightarrow> page_total p | Some n \<Rightarrow> n))
                       (case tot of None \<Rightarrow> page_total p | Some n \<Rightarrow> n)),
               Sleep (Millis 300)] @ before"]
            exI [of _ offset'] exI [of _ tot'])
         (simp add: a fetch_loop_page ih del: fetch_loop.simps)
  qed
qed


lemma totals_append [simp]: "totals (xs @ ys) = totals xs @ totals ys"
  by (induction xs rule: totals.induct) simp_all

lemma yielded_tracks_append [simp]: "yielded_tracks (xs @ ys) = yielded_tracks xs @ yielded_tracks ys"
  by (induction xs rule: yielded_tracks.induct) simp_all

lemma totals_yield_tracks [simp]: "totals (yield_tracks items) = []"
  by (induction items) (simp_all split: option.split)









subsection \<open>Pagination, rate limits and events\<close>



text \<open>The run on the three pages, in full.\<close>

lemma pagination_example:
  "get_all_saved_tracks linux_limit [FetchReturns first_page, FetchReturns second_page, FetchReturns empty_page] =
     ([Fetch 50 0, Yield (Total 3),
       Yield (Track \<lparr>track_id = ''t3'', name = ''t3'', artists = ''Ann, Bo'', album = ''Album'',
                      image = Some ''large.jpg'', added_at = ''2024-01-03T00:00:00Z''\<rparr>),
       Yield (Fetched 3 3), Sleep (Millis 300),
       Fetch 50 50,
       Yield (Track \<lparr>track_id = ''t1'', name = ''t1'', artists = ''Ann, Bo'', album = ''Album'',
                      image = Some ''large.jpg'', added_at = ''2024-01-01T00:00:00Z''\<rparr>),
       Yield (Fetched 3 3), Sleep (Millis 300),
       Fetch 50 100], Returned)"
  by code_simp

text \<open>
  C6, as amended. Let the loop be running after the answers \<open>earlier\<close>, its next call at
  \<open>offset\<close>. If that call fails with status 429 and a Retry-After header that is absent
  (then the delay is 30) or a number of seconds, the delay being one that \<open>time.sleep\<close>
  takes (not negative, at most 9223372036 and within the limit of the platform), the run
  yields the rate-limit dict with that delay, sleeps for it, and calls again with the
  same offset;
  from there on it does what it would have done had the failure not happened. If the
  call fails with anything but a \<open>SpotifyException\<close> of status 429, the exception leaves
  the generator.
\<close>

theorem get_all_saved_tracks_rate_limit:
  assumes "snd (get_all_saved_tracks lim earlier) = Running"
    and "h = Unspecified \<and> retry_after = 30 \<or> h = Seconds retry_after"
    and "0 \<le> retry_after" and "retry_after \<le> min lim 9223372036"
  shows "\<exists>before offset rest.
     fst (get_all_saved_tracks lim earlier) = before @ [Fetch 50 offset] \<and>
     fst (get_all_saved_tracks lim (earlier @ later)) = before @ Fetch 50 offset # rest \<and>
     fst (get_all_saved_tracks lim (earlier @ FetchRaises (SpotifyException 429 h) # later)) =
       before @ [Fetch 50 offset, Yield (RateLimit retry_after), Sleep (Secs retry_after)] @
       Fetch 50 offset # rest \<and>
     snd (get_all_saved_tracks lim (earlier @ FetchRaises (SpotifyException 429 h) # later)) =
       snd (get_all_saved_tracks lim (earlier @ later)) \<and>
     (\<forall>e. (\<forall>h'. e \<noteq> SpotifyException 429 h') \<longrightarrow>
        get_all_saved_tracks lim (earlier @ FetchRaises e # later) =
          (before @ [Fetch 50 offset], Raised (ClientError e)))"
proof -
  from fetch_loop_running [OF assms(1) [unfolded get_all_saved_tracks_def]]
  obtain before offset tot
    where st: "\<And>more. fetch_loop lim (earlier @ more) 0 None =
        (before @ fst (fetch_loop lim more offset tot), snd (fetch_loop lim more offset tot))"
    by blast
  obtain rest where rest: "fst (fetch_loop lim later offset tot) = Fetch limit offset # rest"
    using fetch_loop_starts by blast
  have hdr: "retry_after_of h = Inr retry_after" "sleep lim retry_after = None"
    using assms(2-4) by (auto simp: retry_after_of_def sleep_def)
  have 1: "fst (get_all_saved_tracks lim earlier) = before @ [Fetch 50 offset]"
    using st [of "[]"] by (simp add: get_all_saved_tracks_def limit_def)
  have 2: "fst (get_all_saved_tracks lim (earlier @ later)) = before @ Fetch 50 offset # rest"
    using st [of later] rest by (simp add: get_all_saved_tracks_def limit_def)
  have 3: "fst (get_all_saved_tracks lim (earlier @ FetchRaises (SpotifyException 429 h) # later)) =
       before @ [Fetch 50 offset, Yield (RateLimit retry_after), Sleep (Secs retry_after)] @
       Fetch 50 offset # rest"
    using st [of "FetchRaises (SpotifyException 429 h) # later"] rest
    by (simp add: get_all_saved_tracks_def fetch_loop_rate_limit [OF hdr] limit_def
          del: fetch_loop.simps)
  have 4: "snd (get_all_saved_tracks lim (earlier @ FetchRaises (SpotifyException 429 h) # later)) =
       snd (get_all_saved_tracks lim (earlier @ later))"
    using st [of "FetchRaises (SpotifyException 429 h) # later"] st [of later]
    by (simp add: get_all_saved_tracks_def fetch_loop_rate_limit [OF hdr] del: fetch_loop.simps)
  have 5: "get_all_saved_tracks lim (earlier @ FetchRaises e # later) =
          (before @ [Fetch 50 offset], Raised (ClientError e))"
    if "\<forall>h'. e \<noteq> SpotifyException 429 h'" for e
    using st [of "FetchRaises e # later"] fetch_loop_fatal [OF that, of lim later offset tot]
    by (simp add: get_all_saved_tracks_def limit_def del: fetch_loop.simps)
  from 1 2 3 4 5 show ?thesis by blast
qed

theorem get_all_saved_tracks_rate_limit_witness:
  "\<exists>before offset rest.
     fst (get_all_saved_tracks linux_limit [FetchReturns first_page]) = before @ [Fetch 50 offset] \<and>
     fst (get_all_saved_tracks linux_limit ([FetchReturns first_page] @ [FetchReturns second_page, FetchReturns empty_page])) =
       before @ Fetch 50 offset # rest \<and>
     fst (get_all_saved_tracks linux_limit ([FetchReturns first_page] @ FetchRaises (SpotifyException 429 (Seconds 5)) #
            [FetchReturns second_page, FetchReturns empty_page])) =
       before @ [Fetch 50 offset, Yield (RateLimit 5), Sleep (Secs 5)] @ Fetch 50 offset # rest \<and>
     snd (get_all_saved_tracks linux_limit ([FetchReturns first_page] @ FetchRaises (SpotifyException 429 (Seconds 5)) #
            [FetchReturns second_page, FetchReturns empty_page])) =
       snd (get_all_saved_tracks linux_limit ([FetchReturns first_page] @ [FetchReturns second_page, FetchReturns empty_page])) \<and>
     get_all_saved_tracks linux_limit ([FetchReturns first_page] @ FetchRaises (SpotifyException 500 Unspecified) #
            [FetchReturns second_page, FetchReturns empty_page]) =
       (before @ [Fetch 50 offset], Raised (ClientError (SpotifyException 500 Unspecified)))"
proof -
  have h1: "snd (get_all_saved_tracks linux_limit [FetchReturns first_page]) = Running"
    by (simp add: get_all_saved_tracks_def first_page_def Let_def)
  have h2: "Seconds 5 = Unspecified \<and> (5::int) = 30 \<or> Seconds 5 = Seconds 5"
    by simp
  have h4: "(0::int) \<le> 5" and h5: "(5::int) \<le> min linux_limit 9223372036"
    by (simp_all add: linux_limit_def)
  have h3: "\<forall>h'. SpotifyException 500 Unspecified \<noteq> SpotifyException 429 h'"
    by simp
  from get_all_saved_tracks_rate_limit
    [OF h1 h2 h4 h5, of "[FetchReturns second_page, FetchReturns empty_page]"]
  obtain before offset rest where
    a: "fst (get_all_saved_tracks linux_limit [FetchReturns first_page]) = before @ [Fetch 50 offset]"
    "fst (get_all_saved_tracks linux_limit ([FetchReturns first_page] @ [FetchReturns second_page, FetchReturns empty_page])) =
       before @ Fetch 50 offset # rest"
    "fst (get_all_saved_tracks linux_limit ([FetchReturns first_page] @ FetchRaises (SpotifyException 429 (Seconds 5)) #
            [FetchReturns second_page, FetchReturns empty_page])) =
       before @ [Fetch 50 offset, Yield (RateLimit 5), Sleep (Secs 5)] @ Fetch 50 offset # rest"
    "snd (get_all_saved_tracks linux_limit ([FetchReturns first_page] @ FetchRaises (SpotifyException 429 (Seconds 5)) #
            [FetchReturns second_page, FetchReturns empty_page])) =
       snd (get_all_saved_tracks linux_limit ([FetchReturns first_page] @ [FetchReturns second_page, FetchReturns empty_page]))"
    and b: "\<And>e. (\<forall>h'. e \<noteq> SpotifyException 429 h') \<Longrightarrow>
        get_all_saved_tracks linux_limit ([FetchReturns first_page] @ FetchRaises e #
            [FetchReturns second_page, FetchReturns empty_page]) =
          (before @ [Fetch 50 offset], Raised (ClientError e))"
    by blast
  from a b [OF h3] show ?thesis by blast
qed

text \<open>The run with a rate limit at the second page, Retry-After 5.\<close>

lemma rate_limit_example:
  "get_all_saved_tracks linux_limit [FetchReturns first_page, FetchRaises (SpotifyException 429 (Seconds 5)),
      FetchReturns second_page, FetchReturns empty_page] =
     ([Fetch 50 0, Yield (Total 3),
       Yield (Track \<lparr>track_id = ''t3'', name = ''t3'', artists = ''Ann, Bo'', album = ''Album'',
                      image = Some ''large.jpg'', added_at = ''2024-01-03T00:00:00Z''\<rparr>),
       Yield (Fetched 3 3), Sleep (Millis 300),
       Fetch 50 50, Yield (RateLimit 5), Sleep (Secs 5),
       Fetch 50 50,
       Yield (Track \<lparr>track_id = ''t1'', name = ''t1'', artists = ''Ann, Bo'', album = ''Album'',
                      image = Some ''large.jpg'', added_at = ''2024-01-01T00:00:00Z''\<rparr>),
       Yield (Fetched 3 3), Sleep (Millis 300),
       Fetch 50 100], Returned)"
  by code_simp

text \<open>
  A Retry-After header that \<open>int\<close> does not read (an HTTP date, say) makes \<open>int\<close> raise
  inside the handler: no rate-limit dict, no second call, the generator ends with
  \<open>ValueError\<close>. With a negative number, or with one above what \<open>time.sleep\<close> takes, the
  dict is yielded and \<open>time.sleep\<close> raises: the generator ends there, without a second
  call.
\<close>

theorem get_all_saved_tracks_rate_limit_counterexample:
  "get_all_saved_tracks linux_limit [FetchRaises (SpotifyException 429 Malformed), FetchReturns empty_page] =
     ([Fetch 50 0], Raised ValueError) \<and>
   get_all_saved_tracks linux_limit [FetchRaises (SpotifyException 429 (Seconds (- 1))), FetchReturns empty_page] =
     ([Fetch 50 0, Yield (RateLimit (- 1))], Raised ValueError) \<and>
   get_all_saved_tracks linux_limit
     [FetchRaises (SpotifyException 429 (Seconds 10000000000)), FetchReturns empty_page] =
     ([Fetch 50 0, Yield (RateLimit 10000000000)], Raised OverflowError)"
  by code_simp


end
